theory Spec2Isabelle
  imports Complex_Main "HOL-Library.Word"
begin

section \<open>Data model of the search space (SearchSpace.cc)\<close>

text \<open>
  Scores are \<open>f32\<close> in the source. The model takes them as exact reals: comparisons and
  assignments are as in the source, additions are exact (no rounding, no NaN, no infinity).
  The sentinel \<open>Core::Type<Score>::max\<close> (also written \<open>F32_MAX\<close>) is the largest finite
  \<open>f32\<close>. Network state ids, trace ids and hypothesis indices are \<open>u32\<close> in the source and
  natural numbers here.
\<close>

type_synonym Score = real
type_synonym StateId = nat
type_synonym TraceId = nat
type_synonym StateHypothesisIndex = nat

definition F32_MAX :: Score where
  "F32_MAX = 340282346638528859811704183484516925440"

datatype error = OutOfRange | VerifyFailed | NullPointer | CriticalError

text \<open>
  \<open>StateHypothesis\<close>: the fields the search space reads and writes. The diagnostic
  \<open>pathTrace\<close> member is left out.
\<close>

record StateHypothesis =
  state :: StateId
  trace :: TraceId
  score :: Score
  prospect :: Score

text \<open>
  The part of the search space that the recombination of state hypotheses works on: the
  per-state index array, the hypotheses of the frame being built, and the start of the
  current instance's slice.
\<close>

record Arena =
  stateHypothesisRecombinationArray :: "StateHypothesisIndex list"
  newStateHypotheses :: "StateHypothesis list"
  currentTreeFirstNewStateHypothesis :: StateHypothesisIndex

text \<open>
  Modelled from the spec: \<open>addNewStateHypothesis\<close> is declared in SearchSpace.hh, which
  is not part of the sources; the arena is "append-only growth during expansion", so the
  hypothesis is pushed to the back of \<open>newStateHypotheses\<close>.
\<close>

definition addNewStateHypothesis :: "StateHypothesis \<Rightarrow> Arena \<Rightarrow> Arena" where
  "addNewStateHypothesis hyp a = a\<lparr>newStateHypotheses := newStateHypotheses a @ [hyp]\<rparr>"

text \<open>
  The window check of the three \<open>activateOrUpdate\<close> functions. The source forms the
  reference \<open>sh\<close> before the check, but reads \<open>sh.state\<close> only after the two bound
  tests have failed (short-circuit \<open>||\<close>), so \<open>!\<close> is applied inside the list here.
\<close>

definition notPresent :: "Arena \<Rightarrow> StateHypothesisIndex \<Rightarrow> StateId \<Rightarrow> bool" where
  "notPresent a recombination st =
     (recombination < currentTreeFirstNewStateHypothesis a
      \<or> recombination \<ge> length (newStateHypotheses a)
      \<or> state (newStateHypotheses a ! recombination) \<noteq> st)"

definition activateOrUpdateStateHypothesisLoop ::
  "StateHypothesis \<Rightarrow> Score \<Rightarrow> Arena \<Rightarrow> error + Arena" where
  "activateOrUpdateStateHypothesisLoop hyp sc a =
     (if state hyp \<ge> length (stateHypothesisRecombinationArray a) then Inl OutOfRange
      else
        let recombination = stateHypothesisRecombinationArray a ! state hyp in
        if notPresent a recombination (state hyp) then
          Inr (addNewStateHypothesis (hyp\<lparr>score := sc\<rparr>)
                (a\<lparr>stateHypothesisRecombinationArray :=
                     (stateHypothesisRecombinationArray a)
                       [state hyp := length (newStateHypotheses a)]\<rparr>))
        else
          let sh = newStateHypotheses a ! recombination in
          if score sh \<ge> sc then
            Inr (a\<lparr>newStateHypotheses :=
                     (newStateHypotheses a)[recombination := sh\<lparr>score := sc, trace := trace hyp\<rparr>]\<rparr>)
          else Inr a)"

definition activateOrUpdateStateHypothesisTransition ::
  "StateHypothesis \<Rightarrow> Score \<Rightarrow> StateId \<Rightarrow> Arena \<Rightarrow> error + Arena" where
  "activateOrUpdateStateHypothesisTransition hyp sc successorState a =
     (if successorState \<ge> length (stateHypothesisRecombinationArray a) then Inl OutOfRange
      else
        let recombination = stateHypothesisRecombinationArray a ! successorState in
        if notPresent a recombination successorState then
          Inr (addNewStateHypothesis (hyp\<lparr>score := sc, state := successorState\<rparr>)
                (a\<lparr>stateHypothesisRecombinationArray :=
                     (stateHypothesisRecombinationArray a)
                       [successorState := length (newStateHypotheses a)]\<rparr>))
        else
          let sh = newStateHypotheses a ! recombination in
          if score sh \<ge> sc then
            Inr (a\<lparr>newStateHypotheses :=
                     (newStateHypotheses a)[recombination := sh\<lparr>score := sc, trace := trace hyp\<rparr>]\<rparr>)
          else Inr a)"

definition activateOrUpdateStateHypothesisDirectly ::
  "StateHypothesis \<Rightarrow> Arena \<Rightarrow> error + Arena" where
  "activateOrUpdateStateHypothesisDirectly hyp a =
     (if state hyp \<ge> length (stateHypothesisRecombinationArray a) then Inl OutOfRange
      else
        let recombination = stateHypothesisRecombinationArray a ! state hyp in
        if notPresent a recombination (state hyp) then
          Inr (addNewStateHypothesis hyp
                (a\<lparr>stateHypothesisRecombinationArray :=
                     (stateHypothesisRecombinationArray a)
                       [state hyp := length (newStateHypotheses a)]\<rparr>))
        else
          let sh = newStateHypotheses a ! recombination in
          if score sh \<ge> score hyp then
            Inr (a\<lparr>newStateHypotheses :=
                     (newStateHypotheses a)[recombination := sh\<lparr>score := score hyp, trace := trace hyp\<rparr>]\<rparr>)
          else Inr a)"


text \<open>
  The three kinds of recombination calls that the expansion issues, as values, and the
  run of a sequence of such calls against the arena (the first failing call stops the run).
\<close>

datatype Update =
    Loop StateHypothesis Score
  | Transition StateHypothesis Score StateId
  | Directly StateHypothesis

fun applyUpdate :: "Update \<Rightarrow> Arena \<Rightarrow> error + Arena" where
  "applyUpdate (Loop hyp sc) a = activateOrUpdateStateHypothesisLoop hyp sc a"
| "applyUpdate (Transition hyp sc succ) a = activateOrUpdateStateHypothesisTransition hyp sc succ a"
| "applyUpdate (Directly hyp) a = activateOrUpdateStateHypothesisDirectly hyp a"

fun runUpdates :: "Update list \<Rightarrow> Arena \<Rightarrow> error + Arena" where
  "runUpdates [] a = Inr a"
| "runUpdates (u # us) a =
     (case applyUpdate u a of Inl e \<Rightarrow> Inl e | Inr a' \<Rightarrow> runUpdates us a')"

fun target :: "Update \<Rightarrow> StateId" where
  "target (Loop hyp sc) = state hyp"
| "target (Transition hyp sc succ) = succ"
| "target (Directly hyp) = state hyp"

fun incomingScore :: "Update \<Rightarrow> Score" where
  "incomingScore (Loop hyp sc) = sc"
| "incomingScore (Transition hyp sc succ) = sc"
| "incomingScore (Directly hyp) = score hyp"

fun incomingTrace :: "Update \<Rightarrow> TraceId" where
  "incomingTrace (Loop hyp sc) = trace hyp"
| "incomingTrace (Transition hyp sc succ) = trace hyp"
| "incomingTrace (Directly hyp) = trace hyp"

text \<open>The hypotheses of the current instance's slice that sit on network state \<open>t\<close>.\<close>

definition liveOn :: "Arena \<Rightarrow> StateId \<Rightarrow> StateHypothesis list" where
  "liveOn a t =
     filter (\<lambda>sh. state sh = t)
       (drop (currentTreeFirstNewStateHypothesis a) (newStateHypotheses a))"

text \<open>The calls of a sequence that target network state \<open>t\<close>, in the order issued.\<close>

definition incoming :: "Update list \<Rightarrow> StateId \<Rightarrow> Update list" where
  "incoming us t = filter (\<lambda>u. target u = t) us"

text \<open>
  The validity condition of the "no full clear" index array for the current slice: every
  hypothesis of the slice is pointed to by the array slot of its own network state.
\<close>

definition windowOk :: "Arena \<Rightarrow> bool" where
  "windowOk a =
     (currentTreeFirstNewStateHypothesis a \<le> length (newStateHypotheses a) \<and>
      (\<forall>i. currentTreeFirstNewStateHypothesis a \<le> i \<and> i < length (newStateHypotheses a) \<longrightarrow>
         state (newStateHypotheses a ! i) < length (stateHypothesisRecombinationArray a) \<and>
         stateHypothesisRecombinationArray a ! state (newStateHypotheses a ! i) = i))"

text \<open>
  What one recombination call does to the hypotheses that sit on its target state, stated
  on that short list alone (used to describe the effect of a run of calls).
\<close>

fun recombine :: "StateHypothesis list \<Rightarrow> Update \<Rightarrow> StateHypothesis list" where
  "recombine [] (Loop hyp sc) = [hyp\<lparr>score := sc\<rparr>]"
| "recombine [] (Transition hyp sc succ) = [hyp\<lparr>score := sc, state := succ\<rparr>]"
| "recombine [] (Directly hyp) = [hyp]"
| "recombine (sh # rest) u =
     (if score sh \<ge> incomingScore u then sh\<lparr>score := incomingScore u, trace := incomingTrace u\<rparr> else sh) # rest"


section \<open>Word-end hypotheses and traces\<close>

text \<open>
  Modelled from the spec: \<open>SearchAlgorithm::ScoreVector\<close> is declared outside the
  sources. It is the "score vector (acoustic, LM components)"; where the source compares
  two score vectors or a score vector with a \<open>Score\<close>, the comparison is on the total
  (the "minimum total score" of the sentence-end selection).
\<close>

record ScoreVector =
  acoustic :: Score
  lm :: Score

definition total :: "ScoreVector \<Rightarrow> Score" where
  "total v = acoustic v + lm v"

text \<open>
  Traces are reference-counted heap objects (\<open>Core::Ref<Trace>\<close>) whose \<open>sibling\<close>
  member is assigned through the reference. The model keeps them in a store, a list
  indexed by reference; \<open>None\<close> is the null reference and \<open>new Trace\<close> appends.
  \<open>pronunciationT\<close> is the id of the lemma pronunciation (\<open>None\<close> for the null pointer),
  \<open>transit\<close> the pair of phoneme ids of the boundary.
\<close>

type_synonym TraceRef = nat

record Trace =
  predecessor :: "TraceRef option"
  sibling :: "TraceRef option"
  pronunciationT :: "nat option"
  time :: nat
  scoreT :: ScoreVector
  transit :: "nat \<times> nat"

type_synonym TraceStore = "Trace list"

text \<open>
  \<open>WordEndHypothesis\<close>, with \<open>'h\<close> the language-model history (\<open>Lm::History\<close>).
  \<open>pronunciation\<close> holds the id of the pronunciation (\<open>pronunciation->id()\<close>), \<open>None\<close>
  for the null pointer. The diagnostic \<open>pathTrace\<close> member is left out.
\<close>

record 'h WordEndHypothesis =
  history :: 'h
  lookaheadHistory :: 'h
  transitState :: StateId
  pronunciation :: "nat option"
  scoreW :: ScoreVector
  traceW :: "TraceRef option"
  endExit :: nat

datatype LatticeMode = Yes | No | NotSpecified

definition effectiveLattice :: "LatticeMode \<Rightarrow> bool \<Rightarrow> bool" where
  "effectiveLattice mode shallCreateLattice =
     (if mode = No then False else if mode = Yes then True else shallCreateLattice)"

text \<open>
  The tie test of \<open>recombineTwoHypotheses\<close>: \<open>b.pronunciation->id() > a.pronunciation->id()\<close>
  dereferences both pointers, so a null pronunciation on a tie is an error of the model.
\<close>

definition incomingWins :: "'h WordEndHypothesis \<Rightarrow> 'h WordEndHypothesis \<Rightarrow> error + bool" where
  "incomingWins a b =
     (if total (scoreW b) > total (scoreW a) then Inr True
      else if total (scoreW b) = total (scoreW a) then
        (case (pronunciation b, pronunciation a) of
           (Some ib, Some ia) \<Rightarrow> Inr (ib > ia)
         | _ \<Rightarrow> Inl NullPointer)
      else Inr False)"

text \<open>
  \<open>recombineTwoHypotheses(a, b, shallCreateLattice)\<close>: \<open>a\<close> is the incoming hypothesis,
  \<open>b\<close> the stored one. The result is the new value of \<open>b\<close> and the trace store
  (\<open>a\<close> itself is not assigned to; only the trace it refers to is).
\<close>

definition recombineTwoHypotheses ::
  "'h WordEndHypothesis \<Rightarrow> 'h WordEndHypothesis \<Rightarrow> bool \<Rightarrow> TraceStore \<Rightarrow>
   error + ('h WordEndHypothesis \<times> TraceStore)" where
  "recombineTwoHypotheses a b shallCreateLattice ts =
     (case incomingWins a b of
        Inl e \<Rightarrow> Inl e
      | Inr True \<Rightarrow>
          (let b' = b\<lparr>history := history a, pronunciation := pronunciation a,
                      endExit := endExit a, scoreW := scoreW a\<rparr> in
           if shallCreateLattice then
             (case traceW a of
                None \<Rightarrow> Inl NullPointer
              | Some ta \<Rightarrow>
                  if ta \<ge> length ts then Inl OutOfRange
                  else if sibling (ts ! ta) \<noteq> None then Inl VerifyFailed
                  else Inr (b'\<lparr>traceW := traceW a\<rparr>,
                            ts[ta := (ts ! ta)\<lparr>sibling := traceW b\<rparr>]))
           else Inr (b'\<lparr>traceW := traceW a\<rparr>, ts))
      | Inr False \<Rightarrow>
          (if shallCreateLattice then
             (case (traceW a, traceW b) of
                (Some ta, Some tb) \<Rightarrow>
                  if ta \<ge> length ts \<or> tb \<ge> length ts then Inl OutOfRange
                  else if sibling (ts ! ta) \<noteq> None then Inl VerifyFailed
                  else
                    (let ts1 = ts[ta := (ts ! ta)\<lparr>sibling := sibling (ts ! tb)\<rparr>] in
                     Inr (b, ts1[tb := (ts1 ! tb)\<lparr>sibling := Some ta\<rparr>]))
              | _ \<Rightarrow> Inl NullPointer)
           else Inr (b, ts)))"

text \<open>
  The recombination key. Outside mesh mode the map compares (history, transit state), as
  the two \<open>verify_\<close> lines after the lookup say. Modelled from the spec: the mesh
  equality (\<open>WordEndHypothesis::MeshEquality\<close>, "equal transit and a shared pronunciation
  suffix") is declared outside the sources and is the parameter \<open>meshEquality\<close>.
\<close>

definition sameKey ::
  "('h WordEndHypothesis \<Rightarrow> 'h WordEndHypothesis \<Rightarrow> bool) \<Rightarrow> bool \<Rightarrow>
   'h WordEndHypothesis \<Rightarrow> 'h WordEndHypothesis \<Rightarrow> bool" where
  "sameKey meshEquality mesh x y =
     (if mesh then meshEquality x y
      else history x = history y \<and> transitState x = transitState y)"

text \<open>
  The in/out loop of \<open>recombineWordEnds\<close> over the array \<open>wordEndHypotheses\<close>. \<open>m\<close>
  holds the positions inserted into the recombination set, in insertion order; the
  lookup compares the current contents at those positions with the hypothesis at \<open>in\<close>.
\<close>

function recombineLoop ::
  "('h WordEndHypothesis \<Rightarrow> 'h WordEndHypothesis \<Rightarrow> bool) \<Rightarrow> bool \<Rightarrow> nat \<Rightarrow> nat \<Rightarrow> nat list \<Rightarrow>
   'h WordEndHypothesis list \<Rightarrow> TraceStore \<Rightarrow>
   error + ('h WordEndHypothesis list \<times> TraceStore)" where
  "recombineLoop same lattice inp out m ws ts =
     (if inp \<ge> length ws then Inr (take out ws, ts)
      else
        (case find (\<lambda>i. same (ws ! i) (ws ! inp)) m of
           Some i \<Rightarrow>
             (case recombineTwoHypotheses (ws ! inp) (ws ! i) lattice ts of
                Inl e \<Rightarrow> Inl e
              | Inr (b', ts') \<Rightarrow> recombineLoop same lattice (Suc inp) out m (ws[i := b']) ts')
         | None \<Rightarrow>
             recombineLoop same lattice (Suc inp) (Suc out) (m @ [out]) (ws[out := ws ! inp]) ts))"
  by pat_completeness auto
termination
  by (relation "measure (\<lambda>(same, lattice, inp, out, m, ws, ts). length ws - inp)") auto

declare recombineLoop.simps [simp del]

definition recombineWordEnds ::
  "('h WordEndHypothesis \<Rightarrow> 'h WordEndHypothesis \<Rightarrow> bool) \<Rightarrow> bool \<Rightarrow> LatticeMode \<Rightarrow> bool \<Rightarrow>
   'h WordEndHypothesis list \<Rightarrow> TraceStore \<Rightarrow>
   error + ('h WordEndHypothesis list \<times> TraceStore)" where
  "recombineWordEnds meshEquality decodeMesh mode shallCreateLattice ws ts =
     (let lattice = effectiveLattice mode shallCreateLattice in
      recombineLoop (sameKey meshEquality (decodeMesh \<and> lattice)) lattice 0 0 [] ws ts)"

text \<open>No two hypotheses of the list share a recombination key.\<close>

definition alreadyRecombined ::
  "('h WordEndHypothesis \<Rightarrow> 'h WordEndHypothesis \<Rightarrow> bool) \<Rightarrow> 'h WordEndHypothesis list \<Rightarrow> bool" where
  "alreadyRecombined same ws =
     (\<forall>i < length ws. \<forall>j < length ws. i \<noteq> j \<longrightarrow> \<not> same (ws ! i) (ws ! j))"

section \<open>The compiled network and the expansion of one state hypothesis\<close>

datatype TransitionType = loop | forward | skip | exit

text \<open>
  The collaborators of the expansion that are declared outside the sources
  (\<open>HMMStateNetwork\<close>, the transition models, the constant \<open>SingleSuccessorBatchMask\<close>) are
  fields of a record that the functions take as a parameter:

  \<^item> \<open>successorsOf s\<close> is \<open>network_.structure.state(s).successors\<close>, a 32-bit batch id;
  \<^item> \<open>transitionModel s ty\<close> is \<open>(*transitionModel(state(s).stateDesc))[ty]\<close>;
  \<^item> \<open>batchSuccessorsSimple\<close> (the instance with template argument \<open>true\<close>) and
    \<open>batchSuccessorsSimpleIgnoreLabels\<close> return a pair of \<open>int\<close>, with first component
    \<open>-1\<close> when the successors are not one contiguous batch;
  \<^item> \<open>batchSuccessors b\<close> and \<open>successors s\<close> are the state ids that the generic
    \<open>SuccessorIterator\<close> yields, in order.

  \<open>secondOrderEdgeSuccessorBatches_\<close> is the \<open>u32\<close> vector filled by
  \<open>initializeSearchNetwork\<close>.
\<close>

record Network =
  successorsOf :: "StateId \<Rightarrow> 32 word"
  transitionModel :: "StateId \<Rightarrow> TransitionType \<Rightarrow> Score"
  SingleSuccessorBatchMask :: "32 word"
  batchSuccessorsSimple :: "32 word \<Rightarrow> int \<times> int"
  batchSuccessorsSimpleIgnoreLabels :: "32 word \<Rightarrow> int \<times> int"
  batchSuccessors :: "32 word \<Rightarrow> StateId list"
  successors :: "StateId \<Rightarrow> StateId list"
  secondOrderEdgeSuccessorBatches :: "nat list"

text \<open>Conversion of an \<open>int\<close> to \<open>u32\<close> (\<open>StateId\<close>): reduction modulo \<open>2^32\<close>.\<close>

definition u32 :: "int \<Rightarrow> nat" where
  "u32 i = nat (i mod 4294967296)"

text \<open>
  \<open>for (StateId s = first; s != second; ++s)\<close> with \<open>first\<close>, \<open>second\<close> of type
  \<open>int\<close>: the counter is unsigned and the test is for inequality, so a start beyond the
  end wraps around \<open>2^32\<close>.
\<close>

definition rangeNe :: "int \<Rightarrow> int \<Rightarrow> StateId list" where
  "rangeNe first second =
     (if u32 first \<le> u32 second then [u32 first ..< u32 second]
      else [u32 first ..< 4294967296] @ [0 ..< u32 second])"


text \<open>
  The second-order walk of \<open>expandStateSlow\<close> below one successor inside the fast
  iteration (batch of the successor if there is one, generic iterator otherwise) and inside
  the generic iteration (always the generic iterator).
\<close>

definition skipWalkBatched :: "Network \<Rightarrow> StateHypothesis \<Rightarrow> Score \<Rightarrow> StateId \<Rightarrow> Update list" where
  "skipWalkBatched net hyp skipScore successor =
     (let skipSuccessors = batchSuccessorsSimple net (successorsOf net successor) in
      if fst skipSuccessors \<noteq> -1
      then map (Transition hyp skipScore) (rangeNe (fst skipSuccessors) (snd skipSuccessors))
      else map (Transition hyp skipScore) (successors net successor))"

definition skipWalkGeneric :: "Network \<Rightarrow> StateHypothesis \<Rightarrow> Score \<Rightarrow> StateId \<Rightarrow> Update list" where
  "skipWalkGeneric net hyp skipScore successor =
     map (Transition hyp skipScore) (successors net successor)"

text \<open>
  \<open>expandStateSlow<expandForward, expandSkip>(hyp)\<close>: the recombination calls it issues,
  in order. They depend on the hypothesis and the network only, not on the arena, so the
  model lists them and then runs them against the arena (\<open>expandStateSlow\<close> below).
\<close>

definition expandStateSlowCalls ::
  "Network \<Rightarrow> bool \<Rightarrow> bool \<Rightarrow> StateHypothesis \<Rightarrow> error + Update list" where
  "expandStateSlowCalls net expandForward expandSkip hyp =
     (if state hyp * 2 + 1 \<ge> length (secondOrderEdgeSuccessorBatches net) then Inl OutOfRange
      else
        let tdp = transitionModel net (state hyp);
            skipScore = score hyp + tdp skip;
            doSkip0 = (expandSkip \<and> skipScore < F32_MAX);
            secondStart = secondOrderEdgeSuccessorBatches net ! (state hyp * 2);
            secondEnd = secondOrderEdgeSuccessorBatches net ! (state hyp * 2 + 1);
            direct = (doSkip0 \<and> secondStart \<noteq> 0);
            doSkip = (doSkip0 \<and> \<not> direct);
            skipCalls = (if direct
                         then map (Transition hyp skipScore) [secondStart ..< secondEnd]
                         else []);
            forwardScore = score hyp + tdp forward
        in
        if forwardScore < F32_MAX then
          (let successorsP = batchSuccessorsSimple net (successorsOf net (state hyp)) in
           if fst successorsP \<noteq> -1 then
             Inr (skipCalls @
                  concat (map (\<lambda>successor.
                      (if expandForward then [Transition hyp forwardScore successor] else []) @
                      (if expandSkip \<and> doSkip then skipWalkBatched net hyp skipScore successor
                       else []))
                    (rangeNe (fst successorsP) (snd successorsP))))
           else
             Inr (skipCalls @
                  concat (map (\<lambda>successor.
                      (if expandForward then [Transition hyp forwardScore successor] else []) @
                      (if expandSkip \<and> doSkip then skipWalkGeneric net hyp skipScore successor
                       else []))
                    (batchSuccessors net (successorsOf net (state hyp))))))
        else Inr skipCalls)"


definition expandStateSlow ::
  "Network \<Rightarrow> bool \<Rightarrow> bool \<Rightarrow> StateHypothesis \<Rightarrow> Arena \<Rightarrow> error + Arena" where
  "expandStateSlow net expandForward expandSkip hyp a =
     (case expandStateSlowCalls net expandForward expandSkip hyp of
        Inl e \<Rightarrow> Inl e
      | Inr us \<Rightarrow> runUpdates us a)"



section \<open>Instances and the search-space state\<close>

text \<open>
  An \<open>Instance\<close> (declared outside the sources) with the members that SearchSpace.cc
  uses. Instances are heap objects referred to by pointers (\<open>activeInstances\<close>,
  \<open>backOffInstance\<close>, \<open>backOffParent\<close>); the model keeps them in a store, a list indexed
  by reference, with \<open>None\<close> for the null pointer. \<open>'h\<close> is \<open>Lm::History\<close>, \<open>'la\<close> a
  look-ahead table (\<open>ContextLookahead\<close>), \<open>'k\<close> the \<open>InstanceKey\<close>.
  \<open>statesBegin\<close> and \<open>statesEnd\<close> are \<open>states.begin\<close> and \<open>states.end\<close>.
\<close>

type_synonym InstanceRef = nat

record ('h, 'la, 'k) Instance =
  key :: 'k
  statesBegin :: StateHypothesisIndex
  statesEnd :: StateHypothesisIndex
  rootStateHypotheses :: "StateHypothesis list"
  transfer :: "StateHypothesisIndex list"
  backOffInstance :: "InstanceRef option"
  backOffParent :: "InstanceRef option"
  backOffScore :: Score
  totalBackOffOffset :: Score
  lookAheadHistory :: 'h
  lookahead :: "'la option"
  inactive :: nat



text \<open>
  Modelled from the spec: the constructor \<open>Instance(key, parent)\<close> is declared outside the
  sources. \<open>getBackOffInstance\<close> asserts after the call that the parent's
  \<open>backOffInstance\<close> is the new object and that the new object's \<open>backOffParent\<close> is the
  parent ("linked via backOffParent/backOffInstance"); the range is empty and the lists are
  empty. The look-ahead history is assigned by every caller right after construction and
  is passed in here.
\<close>

definition newInstance :: "'k \<Rightarrow> InstanceRef option \<Rightarrow> 'h \<Rightarrow> ('h, 'la, 'k) Instance" where
  "newInstance k parent h =
     \<lparr>key = k, statesBegin = 0, statesEnd = 0, rootStateHypotheses = [], transfer = [],
      backOffInstance = None, backOffParent = parent, backOffScore = 0,
      totalBackOffOffset = 0, lookAheadHistory = h, lookahead = None, inactive = 0\<rparr>"

text \<open>
  The language models and look-ahead tables, all declared outside the sources, as a record
  of the queries SearchSpace.cc makes:

  \<^item> \<open>lmLookaheadOn\<close>: the pointer \<open>lmLookahead_\<close> is not null;
  \<open>lmIsBackingOff\<close>: the \<open>dynamic_cast\<close> of \<open>lm_->unscaled()\<close> to a backing-off
    model succeeds;
  \<^item> \<open>historyLenght\<close>, \<open>reducedHistory\<close>, \<open>backOffScoreOf\<close> (the \<open>backOffScore\<close>
    member of \<open>getBackOffScores(h)\<close>) and \<open>isValid\<close> of that model;
  \<^item> \<open>getAccumulatedBackOffScore\<close> and \<open>lookaheadScale\<close> of \<open>lookaheadLm_\<close>;
  \<^item> \<open>getLookahead h\<close>: the table returned by \<open>lmLookahead_->getLookahead(h, false)\<close>
    and then filled; \<open>tryToGetLookahead\<close> may return a null reference;
  \<^item> \<open>isSparse\<close>, \<open>getScoreForLookAheadHashSparse\<close> (\<open>None\<close> when the lookup
    returns false) and \<open>scoreForLookAheadIdNormal\<close> of a table;
  \<^item> the tables \<open>lookAheadIds_\<close> and \<open>lookAheadIdAndHash_\<close>, indexed by network state;
  \<^item> the acoustic look-ahead functors and \<open>acousticLookAhead_->getLookaheadId\<close>;
  \<^item> \<open>isTimeKey\<close> and \<open>keyHistory\<close> of an instance key;
  \<^item> \<open>backOffChainStates\<close> and \<open>mayDeactivate\<close> of an instance (given the store).
\<close>

record ('h, 'la, 'k) Lm =
  lmLookaheadOn :: bool
  lmIsBackingOff :: bool
  historyLenght :: "'h \<Rightarrow> nat"
  reducedHistory :: "'h \<Rightarrow> nat \<Rightarrow> 'h"
  backOffScoreOf :: "'h \<Rightarrow> Score"
  isValid :: "'h \<Rightarrow> bool"
  getAccumulatedBackOffScore :: "'h \<Rightarrow> nat \<Rightarrow> Score"
  lookaheadScale :: Score
  unigramHistory :: 'h
  unigramLookAhead :: 'la
  getLookahead :: "'h \<Rightarrow> 'la"
  tryToGetLookahead :: "'h \<Rightarrow> 'la option"
  isSparse :: "'la \<Rightarrow> bool"
  getScoreForLookAheadHashSparse :: "'la \<Rightarrow> nat \<Rightarrow> Score option"
  scoreForLookAheadIdNormal :: "'la \<Rightarrow> nat \<Rightarrow> Score"
  lookAheadIds :: "StateId \<Rightarrow> nat \<times> nat"
  lookAheadIdAndHash :: "StateId \<Rightarrow> nat \<times> nat"
  acousticLookAheadEnabled :: bool
  applyPreCachedLookAheadForId :: "nat \<Rightarrow> StateId \<Rightarrow> Score"
  applyNoLookahead :: "nat \<Rightarrow> StateId \<Rightarrow> Score"
  acousticGetLookaheadId :: "StateId \<Rightarrow> nat"
  isTimeKey :: "'k \<Rightarrow> bool"
  keyHistory :: "'k \<Rightarrow> 'h"
  backOffChainStates :: "('h, 'la, 'k) Instance list \<Rightarrow> InstanceRef \<Rightarrow> nat"
  mayDeactivate :: "('h, 'la, 'k) Instance list \<Rightarrow> InstanceRef \<Rightarrow> bool"


text \<open>
  The mutable members of \<open>SearchSpace\<close> that the modelled functions work on.
  \<open>activeInstanceMap\<close> is kept as an association list from keys to references.
\<close>

record ('h, 'la, 'k) SearchSpace =
  arena :: Arena
  stateHypotheses :: "StateHypothesis list"
  instances :: "('h, 'la, 'k) Instance list"
  activeInstances :: "InstanceRef list"
  activeInstanceMap :: "('k \<times> InstanceRef) list"
  bestProspect :: Score
  bestScore :: Score
  currentLookaheadInstanceStateThreshold :: nat

text \<open>Assignment to members of the instance behind a reference.\<close>

definition updInstance ::
  "InstanceRef \<Rightarrow> (('h, 'la, 'k) Instance \<Rightarrow> ('h, 'la, 'k) Instance) \<Rightarrow>
   ('h, 'la, 'k) SearchSpace \<Rightarrow> ('h, 'la, 'k) SearchSpace" where
  "updInstance r f s = s\<lparr>instances := (instances s)[r := f (instances s ! r)]\<rparr>"

text \<open>
  \<open>getBackOffInstance(instance)\<close>. A failing \<open>verify\<close> aborts the program and is the
  error \<open>VerifyFailed\<close>; a reference outside the store is a dangling pointer.
\<close>

definition getBackOffInstance ::
  "('h, 'la, 'k) Lm \<Rightarrow> InstanceRef \<Rightarrow> ('h, 'la, 'k) SearchSpace \<Rightarrow>
   error + (InstanceRef option \<times> ('h, 'la, 'k) SearchSpace)" where
  "getBackOffInstance lmE r s =
     (if r \<ge> length (instances s) then Inl NullPointer
      else
        let instance = instances s ! r in
        if backOffInstance instance \<noteq> None \<or> \<not> lmLookaheadOn lmE
        then Inr (backOffInstance instance, s)
        else if \<not> lmIsBackingOff lmE then Inl VerifyFailed
        else
          let useHistory = lookAheadHistory instance;
              len = historyLenght lmE useHistory
          in
          if len = 0 then Inr (None, s)
          else
            let reduced = reducedHistory lmE useHistory (len - 1) in
            if historyLenght lmE reduced \<noteq> len - 1 then Inl VerifyFailed
            else if \<not> isValid lmE reduced then Inl VerifyFailed
            else
              let fresh = length (instances s);
                  s1 = s\<lparr>instances := instances s @ [newInstance (key instance) (Some r) reduced],
                         activeInstances := activeInstances s @ [fresh]\<rparr>;
                  s2 = updInstance r (\<lambda>i. i\<lparr>backOffInstance := Some fresh,
                                              backOffScore := backOffScoreOf lmE useHistory\<rparr>) s1
              in Inr (Some fresh, s2))"



section \<open>Applying the look-ahead to the hypotheses of an instance\<close>


text \<open>
  Modelled from the spec: the pruning policy \<open>RecordMinimum\<close> is declared in Pruning.hh,
  outside the sources. Policies "expose prepare(hyp) (compute/cache auxiliary score)"; this
  one records the minimum: \<open>bestProspect_\<close> (the reference of beam pruning, asserted to be
  set after \<open>addAcousticScores<RecordMinimum>\<close>) and \<open>bestScore_\<close>.
\<close>

definition prepare ::
  "StateHypothesis \<Rightarrow> ('h, 'la, 'k) SearchSpace \<Rightarrow> ('h, 'la, 'k) SearchSpace" where
  "prepare sh s = s\<lparr>bestProspect := min (bestProspect s) (prospect sh),
                     bestScore := min (bestScore s) (score sh)\<rparr>"

text \<open>Assignment to the hypothesis at position \<open>i\<close> of \<open>newStateHypotheses\<close>.\<close>

definition setNew ::
  "nat \<Rightarrow> StateHypothesis \<Rightarrow> ('h, 'la, 'k) SearchSpace \<Rightarrow> ('h, 'la, 'k) SearchSpace" where
  "setNew i sh s = s\<lparr>arena := (arena s)\<lparr>newStateHypotheses := (newStateHypotheses (arena s))[i := sh]\<rparr>\<rparr>"

definition getNew :: "('h, 'la, 'k) SearchSpace \<Rightarrow> nat \<Rightarrow> StateHypothesis" where
  "getNew s i = newStateHypotheses (arena s) ! i"














section \<open>Expansion of a frame and the pruning pass\<close>



















text \<open>The same, except that the range of the instance behind \<open>r\<close> may change.\<close>

definition keepsExcept ::
  "InstanceRef \<Rightarrow> ('h, 'la, 'k) SearchSpace \<Rightarrow> ('h, 'la, 'k) SearchSpace \<Rightarrow> bool" where
  "keepsExcept r s s' =
     (length (instances s) \<le> length (instances s') \<and>
      (\<forall>q < length (instances s). q \<noteq> r \<longrightarrow>
         statesBegin (instances s' ! q) = statesBegin (instances s ! q) \<and>
         statesEnd (instances s' ! q) = statesEnd (instances s ! q)) \<and>
      (\<exists>added. activeInstances s' = activeInstances s @ added \<and> distinct added \<and>
         (\<forall>a \<in> set added. length (instances s) \<le> a \<and> a < length (instances s'))) \<and>
      length (newStateHypotheses (arena s)) \<le> length (newStateHypotheses (arena s')) \<and>
      stateHypotheses s' = stateHypotheses s)"





section \<open>Finding word ends\<close>











section \<open>Selecting the sentence end\<close>
















subsection \<open>The candidates of the sentence end\<close>









section \<open>The second-order batches and the successor updates of an expansion\<close>

text \<open>
  The part of \<open>initializeSearchNetwork\<close> that fills \<open>secondOrderEdgeSuccessorBatches_\<close>
  (lines 583--584 and 601--688). For a state the second-order successors are met in the
  order of the two nested successor loops, label items being passed over;
  \<open>secondOrderStep\<close> is the body of the inner loop on the values of
  \<open>firstSecondOrderSuccessor\<close>, \<open>endSecondOrderSuccessor\<close> and
  \<open>secondOrderSuccessorsContinuous\<close>.
\<close>

fun secondOrderStep :: "int \<Rightarrow> int \<times> int \<times> bool \<Rightarrow> int \<times> int \<times> bool" where
  "secondOrderStep t (firstS, endS, contS) =
     (if firstS = -1 then (t, t + 1, contS)
      else if endS = t then (firstS, endS + 1, contS)
      else if firstS = t + 1 then (firstS - 1, endS, contS)
      else (firstS, endS, False))"

text \<open>
  The two entries pushed for a state: \<open>ForbidSecondOrderExpansion = 1\<close> twice when the
  condition of line 675 holds (\<open>forbidden\<close>), the bounds as \<open>u32\<close> when the successors were
  continuous, and two zeros otherwise.
\<close>

definition secondOrderEntry :: "bool \<Rightarrow> StateId list \<Rightarrow> nat \<times> nat" where
  "secondOrderEntry forbidden ts =
     (case fold secondOrderStep (map int ts) (-1, -1, True) of
        (firstS, endS, contS) \<Rightarrow>
          if forbidden then (1, 1)
          else if contS then (u32 firstS, u32 endS)
          else (0, 0))"

text \<open>
  \<open>succ a\<close> lists the successor states of \<open>a\<close> that the iterator
  \<open>network_.structure.successors\<close> yields while the table is built, without the labels,
  and \<open>n\<close> is \<open>network_.structure.stateCount()\<close>.
\<close>

definition secondOrderSuccessors :: "(StateId \<Rightarrow> StateId list) \<Rightarrow> StateId \<Rightarrow> StateId list" where
  "secondOrderSuccessors succ a = concat (map succ (succ a))"

definition buildSecondOrderBatches ::
  "(StateId \<Rightarrow> bool) \<Rightarrow> (StateId \<Rightarrow> StateId list) \<Rightarrow> nat \<Rightarrow> nat list" where
  "buildSecondOrderBatches forbidden succ n =
     [0, 0] @
     concat (map (\<lambda>a. [fst (secondOrderEntry (forbidden a) (secondOrderSuccessors succ a)),
                        snd (secondOrderEntry (forbidden a) (secondOrderSuccessors succ a))])
               [1 ..< n])"

text \<open>
  The (successor state, score) pairs of the calls of
  \<open>activateOrUpdateStateHypothesisTransition\<close> in a sequence of recombination calls.
\<close>

fun successorUpdate :: "Update \<Rightarrow> (StateId \<times> Score) list" where
  "successorUpdate (Transition hyp sc succ) = [(succ, sc)]"
| "successorUpdate (Loop hyp sc) = []"
| "successorUpdate (Directly hyp) = []"

definition successorUpdates :: "Update list \<Rightarrow> (StateId \<times> Score) set" where
  "successorUpdates us = set (concat (map successorUpdate us))"

text \<open>
  What the expansion relies on from the accessors of \<open>HMMStateNetwork\<close>, for a batch id
  \<open>b\<close>: a pair returned with a first component other than \<open>-1\<close> bounds the contiguous range
  of the states that the generic iterator enumerates, and a batch id with all bits of
  \<open>SingleSuccessorBatchMask\<close> set encodes its only successor in the other bits.
\<close>

definition contiguousBatch :: "int \<times> int \<Rightarrow> StateId list \<Rightarrow> bool" where
  "contiguousBatch p succs \<longleftrightarrow>
     fst p = -1 \<or>
     (0 \<le> fst p \<and> fst p \<le> snd p \<and> snd p < 4294967296 \<and>
      set succs = {nat (fst p) ..< nat (snd p)})"

definition batchesAgree :: "Network \<Rightarrow> 32 word \<Rightarrow> bool" where
  "batchesAgree net b \<longleftrightarrow>
     (and b (SingleSuccessorBatchMask net) \<noteq> SingleSuccessorBatchMask net \<or>
      set (batchSuccessors net b) = {unat (and b (not (SingleSuccessorBatchMask net)))}) \<and>
     contiguousBatch (batchSuccessorsSimple net b) (batchSuccessors net b) \<and>
     contiguousBatch (batchSuccessorsSimpleIgnoreLabels net b) (batchSuccessors net b)"

section \<open>Concrete inputs used by the witnesses\<close>

definition demoArena :: Arena where
  "demoArena = \<lparr>stateHypothesisRecombinationArray = [0, 0], newStateHypotheses = [],
                 currentTreeFirstNewStateHypothesis = 0\<rparr>"

definition demoHypA :: StateHypothesis where
  "demoHypA = \<lparr>state = 0, trace = 10, score = 0, prospect = 0\<rparr>"

definition demoHypB :: StateHypothesis where
  "demoHypB = \<lparr>state = 0, trace = 20, score = 0, prospect = 0\<rparr>"

definition demoWordEndA :: "nat WordEndHypothesis" where
  "demoWordEndA = \<lparr>history = 1, lookaheadHistory = 1, transitState = 1, pronunciation = Some 1,
                    scoreW = \<lparr>acoustic = 5, lm = 0\<rparr>, traceW = Some 7, endExit = 4\<rparr>"


definition demoWordEndC :: "nat WordEndHypothesis" where
  "demoWordEndC = \<lparr>history = 2, lookaheadHistory = 2, transitState = 1, pronunciation = Some 2,
                    scoreW = \<lparr>acoustic = 3, lm = 2\<rparr>, traceW = Some 3, endExit = 6\<rparr>"




















section \<open>Auxiliary facts about lists\<close>


section \<open>Recombination of state hypotheses\<close>

lemma filter_none: "(\<forall>x\<in>set xs. f x \<noteq> t) \<Longrightarrow> filter (\<lambda>x. f x = t) xs = []"
  by (induction xs) auto

lemma filter_unique:
  "distinct (map f xs) \<Longrightarrow> i < length xs \<Longrightarrow> f (xs ! i) = t \<Longrightarrow> filter (\<lambda>x. f x = t) xs = [xs ! i]"
proof (induction xs arbitrary: i)
  case Nil then show ?case by simp
next
  case (Cons x xs)
  show ?case
  proof (cases i)
    case 0
    with Cons.prems have fx: "f x = t" by simp
    from Cons.prems(1) have "f x \<notin> f ` set xs" by simp
    with fx have "\<forall>y\<in>set xs. f y \<noteq> t" by (metis imageI)
    with 0 fx show ?thesis by (simp add: filter_none)
  next
    case (Suc j)
    with Cons.prems have j: "j < length xs" "f (xs ! j) = t" "distinct (map f xs)" by auto
    then have "xs ! j \<in> set xs" by simp
    moreover from Cons.prems(1) have "f x \<notin> f ` set xs" by simp
    ultimately have "f x \<noteq> t" using j(2) by (metis imageI)
    with Cons.IH[OF j(3) j(1) j(2)] Suc show ?thesis by simp
  qed
qed

lemma filter_update_other:
  "i < length xs \<Longrightarrow> \<not> P (xs ! i) \<Longrightarrow> \<not> P y \<Longrightarrow> filter P (xs[i := y]) = filter P xs"
proof (induction xs arbitrary: i)
  case Nil then show ?case by simp
next
  case (Cons x xs) then show ?case by (cases i) auto
qed

lemma windowOk_distinct:
  assumes "windowOk a"
  shows "distinct (map state (drop (currentTreeFirstNewStateHypothesis a) (newStateHypotheses a)))"
proof -
  let ?f = "currentTreeFirstNewStateHypothesis a" and ?n = "newStateHypotheses a"
  let ?w = "drop ?f ?n"
  have "\<And>i j. i < length ?w \<Longrightarrow> j < length ?w \<Longrightarrow> state (?w ! i) = state (?w ! j) \<Longrightarrow> i = j"
  proof -
    fix i j assume ij: "i < length ?w" "j < length ?w" "state (?w ! i) = state (?w ! j)"
    from assms have inv: "\<And>k. ?f \<le> k \<Longrightarrow> k < length ?n \<Longrightarrow>
        stateHypothesisRecombinationArray a ! state (?n ! k) = k"
      unfolding windowOk_def by blast
    from ij have "?f + i < length ?n" "?f + j < length ?n" by auto
    with inv[of "?f + i"] inv[of "?f + j"]
    have "stateHypothesisRecombinationArray a ! state (?n ! (?f + i)) = ?f + i"
         "stateHypothesisRecombinationArray a ! state (?n ! (?f + j)) = ?f + j" by auto
    moreover from ij have "state (?n ! (?f + i)) = state (?n ! (?f + j))" by simp
    ultimately show "i = j" by (metis add_left_cancel)
  qed
  note inj = this
  show ?thesis unfolding distinct_conv_nth
  proof (intro allI impI)
    fix i j assume "i < length (map state ?w)" "j < length (map state ?w)" "i \<noteq> j"
    then show "map state ?w ! i \<noteq> map state ?w ! j" using inj[of i j] by auto
  qed
qed

lemma liveOn_absent:
  assumes "windowOk a" "t < length (stateHypothesisRecombinationArray a)"
    "notPresent a (stateHypothesisRecombinationArray a ! t) t"
  shows "liveOn a t = []"
proof -
  let ?f = "currentTreeFirstNewStateHypothesis a" and ?n = "newStateHypotheses a"
  have "\<forall>x\<in>set (drop ?f ?n). state x \<noteq> t"
  proof
    fix x assume "x \<in> set (drop ?f ?n)"
    then obtain j where j: "j < length (drop ?f ?n)" "x = drop ?f ?n ! j"
      by (auto simp: in_set_conv_nth)
    then have x: "x = ?n ! (?f + j)" "?f + j < length ?n" by auto
    show "state x \<noteq> t"
    proof
      assume "state x = t"
      with x assms(1) have "stateHypothesisRecombinationArray a ! t = ?f + j"
        unfolding windowOk_def by auto
      with assms(3) x \<open>state x = t\<close> show False unfolding notPresent_def by auto
    qed
  qed
  then show ?thesis unfolding liveOn_def by (rule filter_none)
qed

lemma liveOn_present:
  assumes "windowOk a" "\<not> notPresent a r t"
  shows "liveOn a t = [newStateHypotheses a ! r]"
proof -
  let ?f = "currentTreeFirstNewStateHypothesis a" and ?n = "newStateHypotheses a"
  from assms(2) have r: "?f \<le> r" "r < length ?n" "state (?n ! r) = t"
    unfolding notPresent_def by auto
  then have "r - ?f < length (drop ?f ?n)" "state (drop ?f ?n ! (r - ?f)) = t" by auto
  from filter_unique[OF windowOk_distinct[OF assms(1)] this] r show ?thesis
    unfolding liveOn_def by simp
qed

lemma liveOn_append:
  "currentTreeFirstNewStateHypothesis a \<le> length (newStateHypotheses a) \<Longrightarrow>
   liveOn (addNewStateHypothesis h (a\<lparr>stateHypothesisRecombinationArray := arr\<rparr>)) t =
   liveOn a t @ (if state h = t then [h] else [])"
  by (simp add: liveOn_def addNewStateHypothesis_def)

lemma windowOk_append:
  assumes "windowOk a" "state h < length (stateHypothesisRecombinationArray a)"
    "notPresent a (stateHypothesisRecombinationArray a ! state h) (state h)"
  shows "windowOk (addNewStateHypothesis h
          (a\<lparr>stateHypothesisRecombinationArray :=
               (stateHypothesisRecombinationArray a)[state h := length (newStateHypotheses a)]\<rparr>))"
proof -
  let ?f = "currentTreeFirstNewStateHypothesis a" and ?n = "newStateHypotheses a"
  let ?arr = "stateHypothesisRecombinationArray a"
  have old: "\<And>i. ?f \<le> i \<Longrightarrow> i < length ?n \<Longrightarrow> state (?n ! i) \<noteq> state h"
  proof
    fix i assume i: "?f \<le> i" "i < length ?n" "state (?n ! i) = state h"
    with assms(1) have "?arr ! state h = i" unfolding windowOk_def by metis
    with assms(3) i show False unfolding notPresent_def by auto
  qed
  show ?thesis
    unfolding windowOk_def addNewStateHypothesis_def
  proof (intro conjI allI impI, goal_cases)
    case 1 from assms(1) show ?case unfolding windowOk_def by simp
  next
    case (2 i)
    then show ?case using assms(1,2) unfolding windowOk_def
      by (cases "i = length ?n") (auto simp: nth_append)
  next
    case (3 i)
    show ?case
    proof (cases "i = length ?n")
      case True with assms(2) show ?thesis by simp
    next
      case False
      with 3 have i: "?f \<le> i" "i < length ?n" by auto
      from old[OF i] assms(1) i show ?thesis unfolding windowOk_def by (simp add: nth_append)
    qed
  qed
qed

lemma windowOk_inplace:
  assumes "windowOk a" "\<not> notPresent a r t" "state y = t"
  shows "windowOk (a\<lparr>newStateHypotheses := (newStateHypotheses a)[r := y]\<rparr>)"
proof -
  let ?f = "currentTreeFirstNewStateHypothesis a" and ?n = "newStateHypotheses a"
  from assms(2) have r: "?f \<le> r" "r < length ?n" "state (?n ! r) = t"
    unfolding notPresent_def by auto
  from assms(1) have inv: "\<And>k. ?f \<le> k \<Longrightarrow> k < length ?n \<Longrightarrow>
        state (?n ! k) < length (stateHypothesisRecombinationArray a) \<and>
        stateHypothesisRecombinationArray a ! state (?n ! k) = k"
    and le: "?f \<le> length ?n"
    unfolding windowOk_def by blast+
  have "\<And>k. ?f \<le> k \<Longrightarrow> k < length ?n \<Longrightarrow> state (?n[r := y] ! k) = state (?n ! k)"
    using r assms(3) by (auto simp: nth_list_update)
  with inv le show ?thesis unfolding windowOk_def by simp
qed

lemma liveOn_inplace:
  assumes "windowOk a" "\<not> notPresent a r tg" "state y = tg"
  shows "liveOn (a\<lparr>newStateHypotheses := (newStateHypotheses a)[r := y]\<rparr>) t =
         (if t = tg then [y] else liveOn a t)"
proof (cases "t = tg")
  case True
  let ?a' = "a\<lparr>newStateHypotheses := (newStateHypotheses a)[r := y]\<rparr>"
  have w: "windowOk ?a'" by (rule windowOk_inplace[OF assms])
  from assms(2,3) have "\<not> notPresent ?a' r tg" unfolding notPresent_def by auto
  from liveOn_present[OF w this] assms(2) True show ?thesis unfolding notPresent_def by simp
next
  case False
  let ?f = "currentTreeFirstNewStateHypothesis a" and ?n = "newStateHypotheses a"
  from assms(2) have r: "?f \<le> r" "r < length ?n" "state (?n ! r) = tg"
    unfolding notPresent_def by auto
  have "drop ?f (?n[r := y]) = (drop ?f ?n)[r - ?f := y]"
    using r by (simp add: drop_update_swap)
  moreover have "filter (\<lambda>x. state x = t) ((drop ?f ?n)[r - ?f := y]) = filter (\<lambda>x. state x = t) (drop ?f ?n)"
    using r False assms(3) by (intro filter_update_other) auto
  ultimately show ?thesis using False unfolding liveOn_def by simp
qed

lemma applyUpdate_step:
  assumes "windowOk a" "applyUpdate u a = Inr a'"
  shows "windowOk a' \<and>
         liveOn a' t = (if target u = t then recombine (liveOn a t) u else liveOn a t)"
proof (cases u)
  case (Loop hyp sc)
  let ?arr = "stateHypothesisRecombinationArray a"
  from assms(2) Loop have inr: "state hyp < length ?arr"
    by (auto simp: activateOrUpdateStateHypothesisLoop_def split: if_splits)
  from assms(1) have le: "currentTreeFirstNewStateHypothesis a \<le> length (newStateHypotheses a)"
    unfolding windowOk_def by simp
  show ?thesis
  proof (cases "notPresent a (?arr ! state hyp) (state hyp)")
    case True
    with assms(2) Loop inr have a': "a' = addNewStateHypothesis (hyp\<lparr>score := sc\<rparr>)
        (a\<lparr>stateHypothesisRecombinationArray := ?arr[state hyp := length (newStateHypotheses a)]\<rparr>)"
      by (simp add: activateOrUpdateStateHypothesisLoop_def)
    have "windowOk a'" unfolding a' using windowOk_append[OF assms(1), of "hyp\<lparr>score := sc\<rparr>"] inr True by simp
    moreover have "liveOn a (state hyp) = []" by (rule liveOn_absent[OF assms(1) inr True])
    ultimately show ?thesis using Loop by (auto simp: a' liveOn_append[OF le])
  next
    case False
    let ?sh = "newStateHypotheses a ! (?arr ! state hyp)"
    let ?y = "if score ?sh \<ge> sc then ?sh\<lparr>score := sc, trace := trace hyp\<rparr> else ?sh"
    from False have st: "state ?sh = state hyp" "?arr ! state hyp < length (newStateHypotheses a)" unfolding notPresent_def by auto
    then have sty: "state ?y = state hyp" by simp
    from assms(2) Loop inr False st have a': "a' = a\<lparr>newStateHypotheses := (newStateHypotheses a)[?arr ! state hyp := ?y]\<rparr>"
      by (auto simp: activateOrUpdateStateHypothesisLoop_def Let_def)
    have "windowOk a'" unfolding a' by (rule windowOk_inplace[OF assms(1) False sty])
    moreover have "liveOn a' t = (if t = state hyp then [?y] else liveOn a t)"
      unfolding a' by (rule liveOn_inplace[OF assms(1) False sty])
    moreover have "liveOn a (state hyp) = [?sh]" by (rule liveOn_present[OF assms(1) False])
    ultimately show ?thesis using Loop by auto
  qed
next
  case (Transition hyp sc succ)
  let ?arr = "stateHypothesisRecombinationArray a"
  from assms(2) Transition have inr: "succ < length ?arr"
    by (auto simp: activateOrUpdateStateHypothesisTransition_def split: if_splits)
  from assms(1) have le: "currentTreeFirstNewStateHypothesis a \<le> length (newStateHypotheses a)"
    unfolding windowOk_def by simp
  show ?thesis
  proof (cases "notPresent a (?arr ! succ) succ")
    case True
    with assms(2) Transition inr have a': "a' = addNewStateHypothesis (hyp\<lparr>score := sc, state := succ\<rparr>)
        (a\<lparr>stateHypothesisRecombinationArray := ?arr[succ := length (newStateHypotheses a)]\<rparr>)"
      by (simp add: activateOrUpdateStateHypothesisTransition_def)
    have "windowOk a'" unfolding a' using windowOk_append[OF assms(1), of "hyp\<lparr>score := sc, state := succ\<rparr>"] inr True by simp
    moreover have "liveOn a succ = []" by (rule liveOn_absent[OF assms(1) inr True])
    ultimately show ?thesis using Transition by (auto simp: a' liveOn_append[OF le])
  next
    case False
    let ?sh = "newStateHypotheses a ! (?arr ! succ)"
    let ?y = "if score ?sh \<ge> sc then ?sh\<lparr>score := sc, trace := trace hyp\<rparr> else ?sh"
    from False have st: "state ?sh = succ" "?arr ! succ < length (newStateHypotheses a)" unfolding notPresent_def by auto
    then have sty: "state ?y = succ" by simp
    from assms(2) Transition inr False st have a': "a' = a\<lparr>newStateHypotheses := (newStateHypotheses a)[?arr ! succ := ?y]\<rparr>"
      by (auto simp: activateOrUpdateStateHypothesisTransition_def Let_def)
    have "windowOk a'" unfolding a' by (rule windowOk_inplace[OF assms(1) False sty])
    moreover have "liveOn a' t = (if t = succ then [?y] else liveOn a t)"
      unfolding a' by (rule liveOn_inplace[OF assms(1) False sty])
    moreover have "liveOn a succ = [?sh]" by (rule liveOn_present[OF assms(1) False])
    ultimately show ?thesis using Transition by auto
  qed
next
  case (Directly hyp)
  let ?arr = "stateHypothesisRecombinationArray a"
  from assms(2) Directly have inr: "state hyp < length ?arr"
    by (auto simp: activateOrUpdateStateHypothesisDirectly_def split: if_splits)
  from assms(1) have le: "currentTreeFirstNewStateHypothesis a \<le> length (newStateHypotheses a)"
    unfolding windowOk_def by simp
  show ?thesis
  proof (cases "notPresent a (?arr ! state hyp) (state hyp)")
    case True
    with assms(2) Directly inr have a': "a' = addNewStateHypothesis hyp
        (a\<lparr>stateHypothesisRecombinationArray := ?arr[state hyp := length (newStateHypotheses a)]\<rparr>)"
      by (simp add: activateOrUpdateStateHypothesisDirectly_def)
    have "windowOk a'" unfolding a' using windowOk_append[OF assms(1), of hyp] inr True by simp
    moreover have "liveOn a (state hyp) = []" by (rule liveOn_absent[OF assms(1) inr True])
    ultimately show ?thesis using Directly by (auto simp: a' liveOn_append[OF le])
  next
    case False
    let ?sh = "newStateHypotheses a ! (?arr ! state hyp)"
    let ?y = "if score ?sh \<ge> score hyp then ?sh\<lparr>score := score hyp, trace := trace hyp\<rparr> else ?sh"
    from False have st: "state ?sh = state hyp" "?arr ! state hyp < length (newStateHypotheses a)" unfolding notPresent_def by auto
    then have sty: "state ?y = state hyp" by simp
    from assms(2) Directly inr False st have a': "a' = a\<lparr>newStateHypotheses := (newStateHypotheses a)[?arr ! state hyp := ?y]\<rparr>"
      by (auto simp: activateOrUpdateStateHypothesisDirectly_def Let_def)
    have "windowOk a'" unfolding a' by (rule windowOk_inplace[OF assms(1) False sty])
    moreover have "liveOn a' t = (if t = state hyp then [?y] else liveOn a t)"
      unfolding a' by (rule liveOn_inplace[OF assms(1) False sty])
    moreover have "liveOn a (state hyp) = [?sh]" by (rule liveOn_present[OF assms(1) False])
    ultimately show ?thesis using Directly by auto
  qed
qed

lemma runUpdates_liveOn:
  "windowOk a \<Longrightarrow> runUpdates us a = Inr a' \<Longrightarrow>
   windowOk a' \<and> liveOn a' t = foldl recombine (liveOn a t) (incoming us t)"
proof (induction us arbitrary: a)
  case Nil then show ?case by (simp add: incoming_def)
next
  case (Cons u us)
  from Cons.prems(2) obtain a1 where a1: "applyUpdate u a = Inr a1" "runUpdates us a1 = Inr a'"
    by (auto split: sum.splits)
  from applyUpdate_step[OF Cons.prems(1) a1(1), of t]
  have w1: "windowOk a1" and l1: "liveOn a1 t = (if target u = t then recombine (liveOn a t) u else liveOn a t)" by auto
  from Cons.IH[OF w1 a1(2)] l1 show ?case by (auto simp: incoming_def)
qed

lemma recombine_first:
  "score (hd (recombine [] u)) = incomingScore u \<and> trace (hd (recombine [] u)) = incomingTrace u \<and>
   state (hd (recombine [] u)) = target u \<and> length (recombine [] u) = 1"
  by (cases u) auto

lemma foldl_recombine_winner:
  assumes "us \<noteq> []"
  shows "\<exists>sh. foldl recombine [] us = [sh] \<and>
           score sh = Min (incomingScore ` set us) \<and>
           trace sh = incomingTrace (last (filter (\<lambda>v. incomingScore v = Min (incomingScore ` set us)) us)) \<and>
           state sh = target (hd us)"
  using assms
proof (induction us rule: rev_nonempty_induct)
  case (single u)
  obtain sh where sh: "recombine [] u = [sh]"
    using recombine_first[of u] by (cases "recombine [] u") auto
  with recombine_first[of u] show ?case by simp
next
  case (snoc u us)
  let ?m = "Min (incomingScore ` set us)"
  from snoc.IH obtain sh where sh: "foldl recombine [] us = [sh]" "score sh = ?m"
    "trace sh = incomingTrace (last (filter (\<lambda>v. incomingScore v = ?m) us))"
    "state sh = target (hd us)" by blast
  have fin: "finite (incomingScore ` set us)" "incomingScore ` set us \<noteq> {}"
    using snoc.hyps by auto
  have minnew: "Min (incomingScore ` set (us @ [u])) = min (incomingScore u) ?m"
    using fin by simp
  have hdeq: "hd (us @ [u]) = hd us" using snoc.hyps by simp
  show ?case
  proof (cases "?m \<ge> incomingScore u")
    case True
    then have m: "Min (incomingScore ` set (us @ [u])) = incomingScore u" using minnew by simp
    have "last (filter (\<lambda>v. incomingScore v = incomingScore u) (us @ [u])) = u" by simp
    with sh True m hdeq show ?thesis by simp
  next
    case False
    then have m: "Min (incomingScore ` set (us @ [u])) = ?m" using minnew by simp
    from False have "filter (\<lambda>v. incomingScore v = ?m) (us @ [u]) = filter (\<lambda>v. incomingScore v = ?m) us"
      by simp
    with sh False m hdeq show ?thesis by simp
  qed
qed

lemma incoming_hd: "incoming us t \<noteq> [] \<Longrightarrow> target (hd (incoming us t)) = t"
proof -
  assume "incoming us t \<noteq> []"
  then have "hd (incoming us t) \<in> set (incoming us t)" by simp
  then show ?thesis unfolding incoming_def by simp
qed

text \<open>
  Claim C1 (as amended). Start the expansion of an instance (the slice begins at the end of
  \<open>newStateHypotheses\<close>) and run any sequence of recombination calls (loop, transition
  or direct) without a failing array access. For every network state \<open>t\<close> targeted by at
  least one call, exactly one hypothesis of the slice sits on \<open>t\<close>; its score is the
  minimum of the incoming scores for \<open>t\<close>, and its trace is the trace of the last call
  among those that carried this minimum: the stored trace is overwritten whenever the
  incoming score is lower than or equal to the stored one, so on an exact tie the
  later hypothesis's trace replaces the earlier one.
\<close>

theorem recombination_keeps_lowest_latest:
  assumes "currentTreeFirstNewStateHypothesis a = length (newStateHypotheses a)"
    and "runUpdates us a = Inr a'"
    and "incoming us t \<noteq> []"
  shows "\<exists>sh. liveOn a' t = [sh] \<and> state sh = t \<and>
           score sh = Min (incomingScore ` set (incoming us t)) \<and>
           trace sh = incomingTrace (last (filter
             (\<lambda>u. incomingScore u = Min (incomingScore ` set (incoming us t))) (incoming us t)))"
proof -
  from assms(1) have w: "windowOk a" unfolding windowOk_def by simp
  from assms(1) have e: "liveOn a t = []" unfolding liveOn_def by simp
  from runUpdates_liveOn[OF w assms(2), of t] e
  have "liveOn a' t = foldl recombine [] (incoming us t)" by simp
  with foldl_recombine_winner[OF assms(3)] incoming_hd[OF assms(3)] show ?thesis by auto
qed


theorem recombination_keeps_lowest_latest_witness:
  "currentTreeFirstNewStateHypothesis demoArena = length (newStateHypotheses demoArena) \<and>
   runUpdates [Transition demoHypA 5 1, Transition demoHypB 4 1, Loop demoHypA 3] demoArena =
     Inr \<lparr>stateHypothesisRecombinationArray = [1, 0],
          newStateHypotheses =
            [\<lparr>state = 1, trace = 20, score = 4, prospect = 0\<rparr>,
             \<lparr>state = 0, trace = 10, score = 3, prospect = 0\<rparr>],
          currentTreeFirstNewStateHypothesis = 0\<rparr> \<and>
   (\<exists>sh. liveOn \<lparr>stateHypothesisRecombinationArray = [1, 0],
          newStateHypotheses =
            [\<lparr>state = 1, trace = 20, score = 4, prospect = 0\<rparr>,
             \<lparr>state = 0, trace = 10, score = 3, prospect = 0\<rparr>],
          currentTreeFirstNewStateHypothesis = 0\<rparr> 1 = [sh] \<and> state sh = 1 \<and>
      score sh = 4 \<and> trace sh = 20)"
proof -
  let ?us = "[Transition demoHypA 5 1, Transition demoHypB 4 1, Loop demoHypA 3]"
  let ?a' = "\<lparr>stateHypothesisRecombinationArray = [1, 0],
          newStateHypotheses =
            [\<lparr>state = 1, trace = 20, score = 4, prospect = 0\<rparr>,
             \<lparr>state = 0, trace = 10, score = 3, prospect = 0\<rparr>],
          currentTreeFirstNewStateHypothesis = 0\<rparr>"
  have h1: "currentTreeFirstNewStateHypothesis demoArena = length (newStateHypotheses demoArena)"
    by (simp add: demoArena_def)
  have h2: "runUpdates ?us demoArena = Inr ?a'"
    by (simp add: demoArena_def demoHypA_def demoHypB_def
        activateOrUpdateStateHypothesisTransition_def activateOrUpdateStateHypothesisLoop_def
        notPresent_def addNewStateHypothesis_def)
  have inc: "incoming ?us 1 = [Transition demoHypA 5 1, Transition demoHypB 4 1]"
    by (simp add: incoming_def demoHypA_def)
  then have h3: "incoming ?us 1 \<noteq> []" by simp
  from recombination_keeps_lowest_latest[OF h1 h2 h3] inc h1 h2
  show ?thesis by (simp add: demoHypB_def)
qed

text \<open>
  Claim C1 as stated fails on a tie: two transitions into network state 1 with the same
  score 5, the first carrying trace 10 and the second trace 20, leave the hypothesis with
  trace 20 (the later one), not trace 10.
\<close>

theorem recombination_tie_counterexample:
  "runUpdates [Transition demoHypA 5 1, Transition demoHypB 5 1] demoArena =
     Inr \<lparr>stateHypothesisRecombinationArray = [0, 0],
          newStateHypotheses = [\<lparr>state = 1, trace = 20, score = 5, prospect = 0\<rparr>],
          currentTreeFirstNewStateHypothesis = 0\<rparr>
   \<and> trace demoHypA = 10 \<and> trace demoHypB = 20"
  by (simp add: demoArena_def demoHypA_def demoHypB_def
      activateOrUpdateStateHypothesisTransition_def notPresent_def addNewStateHypothesis_def)

section \<open>Recombination of word ends\<close>

lemma find_none_upt:
  "(\<forall>i<n. \<not> P i) \<Longrightarrow> find P [0..<n] = None"
  by (simp add: find_None_iff)

lemma recombineLoop_distinct:
  assumes "alreadyRecombined same ws"
  shows "inp \<le> length ws \<Longrightarrow> recombineLoop same lattice inp inp [0..<inp] ws ts = Inr (ws, ts)"
proof (induction "length ws - inp" arbitrary: inp)
  case 0
  then have "inp = length ws" by simp
  then show ?case by (subst recombineLoop.simps) simp
next
  case (Suc k)
  then have lt: "inp < length ws" by simp
  have "\<forall>i<inp. \<not> same (ws ! i) (ws ! inp)"
    using assms lt unfolding alreadyRecombined_def by auto
  then have none: "find (\<lambda>i. same (ws ! i) (ws ! inp)) [0..<inp] = None"
    by (rule find_none_upt)
  have upd: "ws[inp := ws ! inp] = ws" by simp
  have m: "[0..<inp] @ [inp] = [0..<Suc inp]" by simp
  from Suc.hyps(2) lt have k: "k = length ws - Suc inp" by simp
  from lt have le: "Suc inp \<le> length ws" by simp
  have "recombineLoop same lattice inp inp [0..<inp] ws ts =
        recombineLoop same lattice (Suc inp) (Suc inp) ([0..<inp] @ [inp]) (ws[inp := ws ! inp]) ts"
    by (subst recombineLoop.simps) (use lt none in simp)
  also have "\<dots> = recombineLoop same lattice (Suc inp) (Suc inp) [0..<Suc inp] ws ts"
    by (simp only: upd m)
  also have "\<dots> = Inr (ws, ts)" by (rule Suc.hyps(1)[OF k le])
  finally show ?case .
qed

text \<open>
  Claim C9. \<open>recombineWordEnds\<close> applied to a list of word-end hypotheses in which no
  two hypotheses have the same recombination key ((history, transit state), or the mesh
  key when mesh decoding with a lattice is on) returns the same list, in the same order and
  with the same traces, and leaves the trace store as it was.
\<close>

theorem recombineWordEnds_idempotent:
  assumes "alreadyRecombined
             (sameKey meshEquality (decodeMesh \<and> effectiveLattice mode shallCreateLattice)) ws"
  shows "recombineWordEnds meshEquality decodeMesh mode shallCreateLattice ws ts = Inr (ws, ts)"
  unfolding recombineWordEnds_def Let_def
  using recombineLoop_distinct[OF assms, of 0] by simp


theorem recombineWordEnds_idempotent_witness:
  "alreadyRecombined (sameKey (\<lambda>x y. False) (False \<and> effectiveLattice No False))
     [demoWordEndA, demoWordEndC] \<and>
   recombineWordEnds (\<lambda>x y. False) False No False [demoWordEndA, demoWordEndC] [] =
     Inr ([demoWordEndA, demoWordEndC], [])"
proof -
  have h: "alreadyRecombined (sameKey (\<lambda>x y. False) (False \<and> effectiveLattice No False))
     [demoWordEndA, demoWordEndC]"
    by (simp add: alreadyRecombined_def sameKey_def demoWordEndA_def demoWordEndC_def
        less_Suc_eq nth_Cons')
  from recombineWordEnds_idempotent[OF h, of "[]"] h show ?thesis by simp
qed




section \<open>Back-off instances\<close>

lemma getBackOffInstance_cases:
  assumes "getBackOffInstance lmE r s = Inr (res, s')"
  shows "r < length (instances s) \<and>
    ((backOffInstance (instances s ! r) \<noteq> None \<or> \<not> lmLookaheadOn lmE) \<and>
        res = backOffInstance (instances s ! r) \<and> s' = s
     \<or> backOffInstance (instances s ! r) = None \<and> lmLookaheadOn lmE \<and>
        historyLenght lmE (lookAheadHistory (instances s ! r)) = 0 \<and> res = None \<and> s' = s
     \<or> backOffInstance (instances s ! r) = None \<and> lmLookaheadOn lmE \<and>
        historyLenght lmE (lookAheadHistory (instances s ! r)) > 0 \<and>
        historyLenght lmE (reducedHistory lmE (lookAheadHistory (instances s ! r))
           (historyLenght lmE (lookAheadHistory (instances s ! r)) - 1)) =
          historyLenght lmE (lookAheadHistory (instances s ! r)) - 1 \<and>
        res = Some (length (instances s)) \<and>
        instances s' = (instances s @ [newInstance (key (instances s ! r)) (Some r)
             (reducedHistory lmE (lookAheadHistory (instances s ! r))
               (historyLenght lmE (lookAheadHistory (instances s ! r)) - 1))])
           [r := (instances s ! r)\<lparr>backOffInstance := Some (length (instances s)),
                 backOffScore := backOffScoreOf lmE (lookAheadHistory (instances s ! r))\<rparr>] \<and>
        activeInstances s' = activeInstances s @ [length (instances s)] \<and>
        arena s' = arena s \<and> stateHypotheses s' = stateHypotheses s)"
  using assms unfolding getBackOffInstance_def Let_def updInstance_def
  by (auto split: if_splits simp: nth_append)



lemma getBackOffInstance_history_r:
  assumes "getBackOffInstance lmE r s = Inr (res, s')"
  shows "lookAheadHistory (instances s' ! r) = lookAheadHistory (instances s ! r)"
  using getBackOffInstance_cases[OF assms]
  by (auto simp: nth_list_update nth_append)






section \<open>Sparse look-ahead and back-off transfer\<close>


lemma getNew_prepare [simp]: "getNew (prepare sh s) j = getNew s j"
  by (simp add: getNew_def prepare_def)

lemma getNew_updInstance [simp]: "getNew (updInstance b f s) j = getNew s j"
  by (simp add: getNew_def updInstance_def)

lemma instances_setNew [simp]: "instances (setNew i sh s) = instances s"
  by (simp add: setNew_def)

lemma instances_prepare [simp]: "instances (prepare sh s) = instances s"
  by (simp add: prepare_def)

lemma arena_len_setNew [simp]:
  "length (newStateHypotheses (arena (setNew i sh s))) = length (newStateHypotheses (arena s))"
  by (simp add: setNew_def)

lemma arena_len_prepare [simp]:
  "length (newStateHypotheses (arena (prepare sh s))) = length (newStateHypotheses (arena s))"
  by (simp add: prepare_def)

lemma arena_len_updInstance [simp]:
  "length (newStateHypotheses (arena (updInstance b f s))) = length (newStateHypotheses (arena s))"
  by (simp add: updInstance_def)












section \<open>The ranges of the instances partition the state hypotheses\<close>









lemma nth_update_field:
  "(\<And>x. g (f x) = g x) \<Longrightarrow> g (xs[t := f (xs ! t)] ! q) = g (xs ! q)"
proof (cases "t < length xs")
  case True
  assume "\<And>x. g (f x) = g x"
  with True show ?thesis by (cases "q = t") (auto simp: nth_list_update)
next
  case False then show ?thesis by (simp add: list_update_beyond)
qed

lemma updInstance_field:
  "(\<And>x. g (f x) = g x) \<Longrightarrow> g (instances (updInstance t f s) ! q) = g (instances s ! q)"
  unfolding updInstance_def by (simp add: nth_update_field)


































lemma keepsExcept_arena: "keepsExcept r s (s\<lparr>arena := (arena s)\<lparr>currentTreeFirstNewStateHypothesis := v\<rparr>\<rparr>)"
  unfolding keepsExcept_def by (auto intro: exI[of _ "[]"])











section \<open>Scores of a word end after loop, loop, forward\<close>












section \<open>The sentence end\<close>





















end
